theory Spec2Isabelle
  imports Complex_Main "HOL-Library.Word"
begin

section \<open>Data model of the order book (src/orderbook/order_book.cpp)\<close>

text \<open>
  Quantities, order identifiers and order counts are \<open>uint64_t\<close>: 64-bit words, on which
  \<open>+\<close> and \<open>-\<close> wrap around and \<open>\<le>\<close> is the unsigned comparison. Prices are \<open>double\<close>;
  the engine only compares prices and never computes with them, so a price is modelled
  as a real number (finite, non-NaN doubles are ordered as the reals they denote).

  The declarations of \<open>Order\<close>, \<open>Trade\<close> and \<open>PriceLevel\<close> live in a header that is
  not part of the sources; the records below hold the fields order_book.cpp reads and
  writes. The field \<open>timestamp_ns\<close> of a trade is stamped from the wall clock and is left
  out: no operation of the engine reads it back.
\<close>

type_synonym u64 = "64 word"

datatype OrderType = LIMIT | MARKET

record Order =
  order_id :: u64
  is_buy :: bool
  order_type :: OrderType
  price :: real
  quantity :: u64

record Trade =
  buy_order_id :: u64
  sell_order_id :: u64
  trade_price :: real
  trade_quantity :: u64


subsection \<open>std::map<double, uint64_t> as a key-sorted association list\<close>

text \<open>
  A \<open>std::map\<close> iterates its keys in the order of its comparator, and \<open>begin()\<close> is the
  first entry. A ladder is the list of its entries in iteration order; \<open>desc\<close> selects
  the comparator (\<open>std::greater\<close> for the bids, \<open>std::less\<close> for everything else).
\<close>

type_synonym ladder = "(real \<times> u64) list"

definition before :: "bool \<Rightarrow> real \<Rightarrow> real \<Rightarrow> bool" where
  "before desc a b = (if desc then b < a else a < b)"

text \<open>\<open>m.find(p)\<close> is \<open>map_of m p\<close>. \<open>m[p]\<close> read as a value: 0 when the key is absent.\<close>

definition lad_at :: "ladder \<Rightarrow> real \<Rightarrow> u64" where
  "lad_at l p = (case map_of l p of None \<Rightarrow> 0 | Some v \<Rightarrow> v)"

text \<open>\<open>m[p] = v\<close>: overwrite the entry, or insert it at its place in the key order.\<close>

fun lad_put :: "bool \<Rightarrow> real \<Rightarrow> u64 \<Rightarrow> ladder \<Rightarrow> ladder" where
  "lad_put desc p v [] = [(p, v)]"
| "lad_put desc p v ((k, w) # l) =
     (if p = k then (p, v) # l
      else if before desc p k then (p, v) # (k, w) # l
      else (k, w) # lad_put desc p v l)"

text \<open>\<open>m[p] += q\<close> and \<open>m[p] -= q\<close> (\<open>m[p]++\<close> is \<open>lad_add\<close> of 1), created at 0 when absent.\<close>

definition lad_add :: "bool \<Rightarrow> real \<Rightarrow> u64 \<Rightarrow> ladder \<Rightarrow> ladder" where
  "lad_add desc p q l = lad_put desc p (lad_at l p + q) l"

definition lad_sub :: "bool \<Rightarrow> real \<Rightarrow> u64 \<Rightarrow> ladder \<Rightarrow> ladder" where
  "lad_sub desc p q l = lad_put desc p (lad_at l p - q) l"

text \<open>\<open>m.erase(p)\<close>.\<close>

definition lad_erase :: "real \<Rightarrow> ladder \<Rightarrow> ladder" where
  "lad_erase p l = filter (\<lambda>(k, v). k \<noteq> p) l"

subsection \<open>std::unordered_map<uint64_t, Order> as an association list\<close>

text \<open>
  The registry is the list of its entries in the iteration order of the hash table,
  which the C++ standard leaves unspecified: every theorem below that quantifies over
  the book holds for each such order. Erasing keeps the order of the other entries, and
  assigning to a key that is present changes its entry in place. A new key is put at
  the front, as libstdc++ links a new node before the others (until the table is
  rehashed); the concrete runs below depend on this choice only in the order in which
  they list the registry and the trades.
\<close>

type_synonym registry = "(u64 \<times> Order) list"

text \<open>\<open>orders[i] = od\<close>.\<close>

definition reg_put :: "u64 \<Rightarrow> Order \<Rightarrow> registry \<Rightarrow> registry" where
  "reg_put i od r =
     (case map_of r i of
        None \<Rightarrow> (i, od) # r
      | Some old \<Rightarrow> map (\<lambda>(k, x). if k = i then (k, od) else (k, x)) r)"

definition reg_erase :: "u64 \<Rightarrow> registry \<Rightarrow> registry" where
  "reg_erase i r = filter (\<lambda>(k, x). k \<noteq> i) r"

subsection \<open>The state of OrderBook::OrderBookImpl\<close>

text \<open>
  The fields of \<open>OrderBookData\<close> and of \<open>OrderBookImpl\<close>, flattened. \<open>color_cycle\<close>
  belongs to \<open>print_book\<close>, which only renders a snapshot, and is left out with it.
\<close>

record OrderBookImpl =
  orders :: registry
  bids :: ladder
  asks :: ladder
  bid_order_counts :: ladder
  ask_order_counts :: ladder
  next_order_id :: u64
  max_bid_quantity :: u64
  max_ask_quantity :: u64

definition empty_book :: OrderBookImpl where
  "empty_book = \<lparr>orders = [], bids = [], asks = [], bid_order_counts = [],
     ask_order_counts = [], next_order_id = 1000, max_bid_quantity = 0,
     max_ask_quantity = 0\<rparr>"

section \<open>Operations\<close>

subsection \<open>update_max_quantities (lines 311-321)\<close>

definition max_level :: "ladder \<Rightarrow> u64" where
  "max_level l = fold (\<lambda>(k, v) m. if v > m then v else m) l 0"

definition update_max_quantities :: "OrderBookImpl \<Rightarrow> OrderBookImpl" where
  "update_max_quantities b =
     b\<lparr>max_bid_quantity := max_level (bids b), max_ask_quantity := max_level (asks b)\<rparr>"

subsection \<open>match_orders (lines 323-399)\<close>

text \<open>
  The two branches of \<open>match_orders\<close> are mirror images: an incoming buy scans the
  resting sells and works on \<open>asks\<close>/\<open>ask_order_counts\<close>, an incoming sell scans the
  resting buys and works on \<open>bids\<close>/\<open>bid_order_counts\<close>. \<open>match_state\<close> holds what the
  scan of the registry changes besides the registry itself: the incoming order, the
  ladder and the count map of the resting side, the trades and \<open>orders_to_remove\<close>.
\<close>

record match_state =
  incoming :: Order
  level_lad :: ladder
  level_cnt :: ladder
  trades :: "Trade list"
  orders_to_remove :: "u64 list"

text \<open>The body of the \<open>if\<close> (lines 333-354, 366-387) for the candidate \<open>(oid, od)\<close>.\<close>

definition fill :: "real \<Rightarrow> u64 \<Rightarrow> Order \<Rightarrow> match_state \<Rightarrow> Order \<times> match_state" where
  "fill mp oid od s =
     (let inc = incoming s;
          desc = \<not> is_buy inc;
          trade_quantity = min (quantity inc) (quantity od);
          trade = (if is_buy inc
                   then \<lparr>buy_order_id = order_id inc, sell_order_id = oid,
                          trade_price = mp, trade_quantity = trade_quantity\<rparr>
                   else \<lparr>buy_order_id = oid, sell_order_id = order_id inc,
                          trade_price = mp, trade_quantity = trade_quantity\<rparr>);
          inc' = inc\<lparr>quantity := quantity inc - trade_quantity\<rparr>;
          od' = od\<lparr>quantity := quantity od - trade_quantity\<rparr>;
          lad1 = lad_sub desc mp trade_quantity (level_lad s);
          emptied = (lad_at lad1 mp = 0);
          lad2 = (if emptied then lad_erase mp lad1 else lad1);
          cnt2 = (if emptied then lad_erase mp (level_cnt s) else level_cnt s);
          rm = (if quantity od' = 0 then orders_to_remove s @ [oid] else orders_to_remove s)
      in (od', \<lparr>incoming = inc', level_lad = lad2, level_cnt = cnt2,
                trades = trades s @ [trade], orders_to_remove = rm\<rparr>))"

text \<open>The \<open>for\<close> loop over \<open>data.orders\<close>, with its \<open>break\<close>: it returns the registry with
  the candidates' quantities updated in place.\<close>

fun scan :: "real \<Rightarrow> registry \<Rightarrow> match_state \<Rightarrow> registry \<times> match_state" where
  "scan mp [] s = ([], s)"
| "scan mp ((oid, od) # rest) s =
     (if is_buy od \<noteq> is_buy (incoming s) \<and> order_type od = LIMIT \<and> price od = mp
         \<and> quantity (incoming s) > 0
      then (case fill mp oid od s of (od', s') \<Rightarrow>
              if quantity (incoming s') = 0 then ((oid, od') # rest, s')
              else (case scan mp rest s' of (rest', s'') \<Rightarrow> ((oid, od') # rest', s'')))
      else (case scan mp rest s of (rest', s') \<Rightarrow> ((oid, od) # rest', s')))"

definition match_orders ::
  "Order \<Rightarrow> real \<Rightarrow> Trade list \<Rightarrow> OrderBookImpl \<Rightarrow> Order \<times> Trade list \<times> OrderBookImpl" where
  "match_orders incoming_order match_price ts b =
     (if is_buy incoming_order
      then (case scan match_price (orders b)
                   \<lparr>incoming = incoming_order, level_lad = asks b,
                    level_cnt = ask_order_counts b, trades = ts, orders_to_remove = []\<rparr>
            of (os, s) \<Rightarrow>
              (incoming s, trades s,
               update_max_quantities
                 (b\<lparr>orders := fold reg_erase (orders_to_remove s) os,
                    asks := level_lad s, ask_order_counts := level_cnt s\<rparr>)))
      else (case scan match_price (orders b)
                   \<lparr>incoming = incoming_order, level_lad = bids b,
                    level_cnt = bid_order_counts b, trades = ts, orders_to_remove = []\<rparr>
            of (os, s) \<Rightarrow>
              (incoming s, trades s,
               update_max_quantities
                 (b\<lparr>orders := fold reg_erase (orders_to_remove s) os,
                    bids := level_lad s, bid_order_counts := level_cnt s\<rparr>))))"

subsection \<open>add_order (lines 37-95)\<close>

text \<open>The ladder an incoming order matches against, and the test of lines 62 and 78.\<close>

definition opposite :: "Order \<Rightarrow> OrderBookImpl \<Rightarrow> ladder" where
  "opposite od b = (if is_buy od then asks b else bids b)"

definition crossable :: "Order \<Rightarrow> real \<Rightarrow> bool" where
  "crossable od best =
     (order_type od = MARKET \<or> (if is_buy od then best \<le> price od else best \<ge> price od))"

text \<open>
  The four \<open>while\<close> loops of \<open>add_order\<close> (lines 48-51, 53-56, 60-67, 76-83). Nothing in
  the code bounds their iterations, so the loop is a partial function: \<open>None\<close> is a
  call that never returns.
\<close>

partial_function (option) matching_loop ::
  "Order \<Rightarrow> Trade list \<Rightarrow> OrderBookImpl \<Rightarrow> (Order \<times> Trade list \<times> OrderBookImpl) option" where
  "matching_loop new_order ts b =
     (if quantity new_order > 0 \<and> opposite new_order b \<noteq> []
      then (let best = fst (hd (opposite new_order b)) in
            if crossable new_order best
            then (case match_orders new_order best ts b of
                    (new_order', ts', b') \<Rightarrow> matching_loop new_order' ts' b')
            else Some (new_order, ts, b))
      else Some (new_order, ts, b))"

declare matching_loop.simps [code]

text \<open>Lines 69-74 and 85-90: the residual of a LIMIT order rests.\<close>

definition rest_order :: "Order \<Rightarrow> OrderBookImpl \<Rightarrow> OrderBookImpl" where
  "rest_order new_order b =
     (if is_buy new_order
      then update_max_quantities
             (b\<lparr>orders := reg_put (order_id new_order) new_order (orders b),
                bids := lad_add True (price new_order) (quantity new_order) (bids b),
                bid_order_counts := lad_add False (price new_order) 1 (bid_order_counts b)\<rparr>)
      else update_max_quantities
             (b\<lparr>orders := reg_put (order_id new_order) new_order (orders b),
                asks := lad_add False (price new_order) (quantity new_order) (asks b),
                ask_order_counts := lad_add False (price new_order) 1 (ask_order_counts b)\<rparr>))"

definition order_exists :: "OrderBookImpl \<Rightarrow> u64 \<Rightarrow> bool" where
  "order_exists b i = (map_of (orders b) i \<noteq> None)"

definition add_order :: "Order \<Rightarrow> OrderBookImpl \<Rightarrow> (Trade list \<times> OrderBookImpl) option" where
  "add_order order b =
     (if map_of (orders b) (order_id order) \<noteq> None then Some ([], b)
      else (case matching_loop order [] b of
              None \<Rightarrow> None
            | Some (new_order, ts, b') \<Rightarrow>
                if order_type new_order = MARKET then Some (ts, b')
                else if quantity new_order > 0 then Some (ts, rest_order new_order b')
                else Some (ts, b')))"

subsection \<open>cancel_order (lines 97-134) and amend_order (lines 136-184)\<close>

text \<open>Lines 106-128, repeated as lines 145-167: the order's contribution leaves its
  side's ladder.\<close>

definition release :: "Order \<Rightarrow> OrderBookImpl \<Rightarrow> OrderBookImpl" where
  "release od b =
     (if is_buy od
      then (case map_of (bids b) (price od) of
              None \<Rightarrow> b
            | Some agg \<Rightarrow>
                if agg \<le> quantity od
                then b\<lparr>bids := lad_erase (price od) (bids b),
                       bid_order_counts := lad_erase (price od) (bid_order_counts b)\<rparr>
                else b\<lparr>bids := lad_put True (price od) (agg - quantity od) (bids b),
                       bid_order_counts := lad_sub False (price od) 1 (bid_order_counts b)\<rparr>)
      else (case map_of (asks b) (price od) of
              None \<Rightarrow> b
            | Some agg \<Rightarrow>
                if agg \<le> quantity od
                then b\<lparr>asks := lad_erase (price od) (asks b),
                       ask_order_counts := lad_erase (price od) (ask_order_counts b)\<rparr>
                else b\<lparr>asks := lad_put False (price od) (agg - quantity od) (asks b),
                       ask_order_counts := lad_sub False (price od) 1 (ask_order_counts b)\<rparr>))"

definition cancel_order :: "u64 \<Rightarrow> OrderBookImpl \<Rightarrow> bool \<times> OrderBookImpl" where
  "cancel_order i b =
     (case map_of (orders b) i of
        None \<Rightarrow> (False, b)
      | Some od \<Rightarrow>
          (let b1 = (if order_type od = LIMIT then update_max_quantities (release od b) else b)
           in (True, b1\<lparr>orders := reg_erase i (orders b1)\<rparr>)))"

definition amend_order :: "u64 \<Rightarrow> real \<Rightarrow> u64 \<Rightarrow> OrderBookImpl \<Rightarrow> bool \<times> OrderBookImpl" where
  "amend_order i new_price new_quantity b =
     (case map_of (orders b) i of
        None \<Rightarrow> (False, b)
      | Some od \<Rightarrow>
          if order_type od = LIMIT
          then (let b1 = release od b;
                    od' = od\<lparr>price := new_price, quantity := new_quantity\<rparr>;
                    b2 = b1\<lparr>orders := reg_put i od' (orders b1)\<rparr>;
                    b3 = (if is_buy od'
                          then b2\<lparr>bids := lad_add True new_price new_quantity (bids b2),
                                  bid_order_counts := lad_add False new_price 1 (bid_order_counts b2)\<rparr>
                          else b2\<lparr>asks := lad_add False new_price new_quantity (asks b2),
                                  ask_order_counts := lad_add False new_price 1 (ask_order_counts b2)\<rparr>)
                in (True, update_max_quantities b3))
          else (True, b))"

subsection \<open>Queries (lines 186-199, 292-308)\<close>





definition get_best_bid :: "OrderBookImpl \<Rightarrow> real" where
  "get_best_bid b = (if bids b = [] then 0 else fst (hd (bids b)))"

definition get_best_ask :: "OrderBookImpl \<Rightarrow> real" where
  "get_best_ask b = (if asks b = [] then 0 else fst (hd (asks b)))"

section \<open>Book states: reachability and measures of the registry\<close>

text \<open>The states the public operations produce from the empty book of the constructor.\<close>

inductive reachable :: "OrderBookImpl \<Rightarrow> bool" where
  init: "reachable empty_book"
| add: "reachable b \<Longrightarrow> add_order od b = Some (ts, b') \<Longrightarrow> reachable b'"
| cancel: "reachable b \<Longrightarrow> cancel_order i b = (r, b') \<Longrightarrow> reachable b'"
| amend: "reachable b \<Longrightarrow> amend_order i p q b = (r, b') \<Longrightarrow> reachable b'"

text \<open>
  The test of lines 328-330 and 361-363 on a registry entry: a LIMIT order of the given
  side at the given price. The resting orders of one side at one price are the entries
  that pass it, in registry order.
\<close>

definition candidate :: "bool \<Rightarrow> real \<Rightarrow> Order \<Rightarrow> bool" where
  "candidate side p od = (is_buy od = side \<and> order_type od = LIMIT \<and> price od = p)"

definition resting_at :: "bool \<Rightarrow> real \<Rightarrow> registry \<Rightarrow> Order list" where
  "resting_at side p r = filter (candidate side p) (map snd r)"

definition resting_quantity :: "bool \<Rightarrow> real \<Rightarrow> registry \<Rightarrow> nat" where
  "resting_quantity side p r = sum_list (map (\<lambda>od. unat (quantity od)) (resting_at side p r))"

definition resting_count :: "bool \<Rightarrow> real \<Rightarrow> registry \<Rightarrow> nat" where
  "resting_count side p r = length (resting_at side p r)"

text \<open>The total resting quantity of one side, and the total quantity of a trade list,
  as unbounded numbers.\<close>

definition side_total :: "bool \<Rightarrow> registry \<Rightarrow> nat" where
  "side_total side r = sum_list (map (\<lambda>od. unat (quantity od))
      (filter (\<lambda>od. is_buy od = side \<and> order_type od = LIMIT) (map snd r)))"


text \<open>The ladder and the count map of a side (\<open>True\<close> is the buy side).\<close>

definition side_ladder :: "bool \<Rightarrow> OrderBookImpl \<Rightarrow> ladder" where
  "side_ladder side b = (if side then bids b else asks b)"

definition side_counts :: "bool \<Rightarrow> OrderBookImpl \<Rightarrow> ladder" where
  "side_counts side b = (if side then bid_order_counts b else ask_order_counts b)"

text \<open>The representation invariant of a \<open>std::map\<close>: keys strictly in comparator order.\<close>

definition sorted_lad :: "bool \<Rightarrow> ladder \<Rightarrow> bool" where
  "sorted_lad desc l = sorted_wrt (before desc) (map fst l)"

text \<open>A book is crossed when both ladders have levels and the best bid is not below the
  best ask.\<close>

definition uncrossed :: "OrderBookImpl \<Rightarrow> bool" where
  "uncrossed b = (bids b = [] \<or> asks b = [] \<or> fst (hd (bids b)) < fst (hd (asks b)))"

text \<open>
  A side is backed when each of its ladder levels has a resting order at its price and
  holds exactly the sum of the resting quantities there. A book is consistent when both
  sides are backed, the ladders are sorted maps and the registry holds each id once.
\<close>

definition backed :: "bool \<Rightarrow> OrderBookImpl \<Rightarrow> bool" where
  "backed side b =
     list_all (\<lambda>(p, agg). resting_at side p (orders b) \<noteq> [] \<and>
                            unat agg = resting_quantity side p (orders b))
       (side_ladder side b)"

definition consistent :: "OrderBookImpl \<Rightarrow> bool" where
  "consistent b =
     (distinct (map fst (orders b)) \<and> sorted_lad True (bids b) \<and> sorted_lad False (asks b) \<and>
      backed True b \<and> backed False b)"

text \<open>The condition under which the loops of \<open>add_order\<close> run their body once more, and
  the state in which \<open>match_orders\<close> starts its scan.\<close>

definition loop_guard :: "Order \<Rightarrow> OrderBookImpl \<Rightarrow> bool" where
  "loop_guard od b =
     (0 < quantity od \<and> opposite od b \<noteq> [] \<and> crossable od (fst (hd (opposite od b))))"

definition scan_start :: "Order \<Rightarrow> Trade list \<Rightarrow> OrderBookImpl \<Rightarrow> match_state" where
  "scan_start od ts b =
     \<lparr>incoming = od, level_lad = side_ladder (\<not> is_buy od) b,
      level_cnt = side_counts (\<not> is_buy od) b, trades = ts, orders_to_remove = []\<rparr>"



text \<open>
  The level of a side at a price can take one more order of quantity \<open>q\<close> and give it
  back: it is absent from both the ladder and the count map, or it is present in both
  with an aggregate that is not zero and does not wrap around when \<open>q\<close> is added.
\<close>

definition level_restorable :: "bool \<Rightarrow> real \<Rightarrow> u64 \<Rightarrow> OrderBookImpl \<Rightarrow> bool" where
  "level_restorable side p q b =
     (case map_of (side_ladder side b) p of
        None \<Rightarrow> map_of (side_counts side b) p = None
      | Some agg \<Rightarrow> agg \<noteq> 0 \<and> unat agg + unat q < 2 ^ 64 \<and> map_of (side_counts side b) p \<noteq> None)"



subsection \<open>Concrete orders and books used as inputs\<close>

definition limit_order :: "u64 \<Rightarrow> bool \<Rightarrow> real \<Rightarrow> u64 \<Rightarrow> Order" where
  "limit_order i side p q =
     \<lparr>order_id = i, is_buy = side, order_type = LIMIT, price = p, quantity = q\<rparr>"

definition market_order :: "u64 \<Rightarrow> bool \<Rightarrow> u64 \<Rightarrow> Order" where
  "market_order i side q =
     \<lparr>order_id = i, is_buy = side, order_type = MARKET, price = 0, quantity = q\<rparr>"

definition book_of ::
  "registry \<Rightarrow> ladder \<Rightarrow> ladder \<Rightarrow> ladder \<Rightarrow> ladder \<Rightarrow> u64 \<Rightarrow> u64 \<Rightarrow> OrderBookImpl" where
  "book_of os bs as bc ac mb ma =
     \<lparr>orders = os, bids = bs, asks = as, bid_order_counts = bc, ask_order_counts = ac,
      next_order_id = 1000, max_bid_quantity = mb, max_ask_quantity = ma\<rparr>"

text \<open>One resting buy of 5 at price 10 (the book of the spec's scenario 1).\<close>

definition one_bid :: OrderBookImpl where
  "one_bid = book_of [(1, limit_order 1 True 10 5)] [(10, 5)] [] [(10, 1)] [] 5 0"

text \<open>One resting sell of 3 at price 10, and two of them.\<close>

definition one_ask :: OrderBookImpl where
  "one_ask = book_of [(1, limit_order 1 False 10 3)] [] [(10, 3)] [] [(10, 1)] 0 3"

definition two_asks :: OrderBookImpl where
  "two_asks = book_of [(2, limit_order 2 False 10 3), (1, limit_order 1 False 10 3)]
     [] [(10, 6)] [] [(10, 2)] 0 6"

text \<open>One resting buy of 5 at the price 0.\<close>

definition zero_bid :: OrderBookImpl where
  "zero_bid = book_of [(1, limit_order 1 True 0 5)] [(0, 5)] [] [(0, 1)] [] 5 0"






text \<open>The empty ladders left when all orders are gone, with the maxima recomputed.\<close>

definition drained :: OrderBookImpl where
  "drained = book_of [] [] [] [] [] 0 0"


text \<open>\<open>one_bid\<close> with a second buy, of 3 at 10 (id 2), resting beside the first.\<close>

definition one_bid_more :: OrderBookImpl where
  "one_bid_more = book_of [(2, limit_order 2 True 10 3), (1, limit_order 1 True 10 5)]
     [(10, 8)] [] [(10, 2)] [] 8 0"

text \<open>\<open>one_ask\<close> after a buy of 5 at 10 (id 2): the sell filled, 2 resting.\<close>

definition crossing_rest :: OrderBookImpl where
  "crossing_rest = book_of [(2, limit_order 2 True 10 2)] [(10, 2)] [] [(10, 1)] [] 2 0"

text \<open>\<open>one_bid\<close> after \<open>amend_order(1, 11, 0)\<close>: a bid level with aggregate 0.\<close>

definition zero_level :: OrderBookImpl where
  "zero_level = book_of [(1, limit_order 1 True 11 0)] [(11, 0)] [] [(11, 1)] [] 0 0"

text \<open>
  A book reached with quantities large enough to wrap the aggregate around: two sells
  of \<open>2^63\<close> at 10 (ids 1, 2) make \<open>asks[10]\<close> wrap to 0; cancelling id 1 erases the level
  while id 2 still rests; a sell of 5 at 10 (id 3) creates the level again with
  aggregate 5. \<open>stuck\<close> is that book after a MARKET buy has filled both sells.
\<close>

definition big :: u64 where "big = 2 ^ 63"

definition stuck_before :: OrderBookImpl where
  "stuck_before = book_of [(3, limit_order 3 False 10 5), (2, limit_order 2 False 10 big)]
     [] [(10, 5)] [] [(10, 1)] 0 5"

definition stuck :: OrderBookImpl where
  "stuck = book_of [] [] [(10, big)] [] [] 0 big"


section \<open>Properties\<close>

lemmas run_simps = add_order_def matching_loop.simps match_orders_def fill_def opposite_def
  reg_put_def
  crossable_def rest_order_def update_max_quantities_def max_level_def lad_add_def lad_sub_def
  lad_at_def lad_erase_def reg_erase_def empty_book_def before_def Let_def
  cancel_order_def amend_order_def release_def limit_order_def market_order_def book_of_def

subsection \<open>Ladders as sorted maps\<close>


lemma map_of_lad_put: "map_of (lad_put desc p v l) = (map_of l)(p \<mapsto> v)"
  by (induction l) (auto simp: fun_eq_iff)


lemma lad_at_lad_put: "lad_at (lad_put desc p v l) k = (if k = p then v else lad_at l k)"
  by (simp add: lad_at_def map_of_lad_put)




lemma before_trans: "before desc a b \<Longrightarrow> before desc b c \<Longrightarrow> before desc a c"
  by (auto simp: before_def split: if_splits)

lemma before_irrefl: "\<not> before desc a a"
  by (simp add: before_def)










lemma fill_fst:
  "fst (fill mp oid od s) = od\<lparr>quantity := quantity od - min (quantity (incoming s)) (quantity od)\<rparr>"
  by (simp add: fill_def Let_def)

lemma fill_incoming:
  "incoming (snd (fill mp oid od s)) =
     (incoming s)\<lparr>quantity := quantity (incoming s) - min (quantity (incoming s)) (quantity od)\<rparr>"
  by (simp add: fill_def Let_def)








text \<open>The loop body of \<open>scan\<close>, with projections in place of the case splits.\<close>

lemma scan_Cons:
  "scan mp ((oid, od) # rest) s =
     (if candidate (\<not> is_buy (incoming s)) mp od \<and> 0 < quantity (incoming s)
      then (if quantity (incoming (snd (fill mp oid od s))) = 0
            then ((oid, fst (fill mp oid od s)) # rest, snd (fill mp oid od s))
            else ((oid, fst (fill mp oid od s)) # fst (scan mp rest (snd (fill mp oid od s))),
                  snd (scan mp rest (snd (fill mp oid od s)))))
      else ((oid, od) # fst (scan mp rest s), snd (scan mp rest s)))"
  by (auto simp: candidate_def split: prod.splits)

lemma fill_incoming_fields:
  "is_buy (incoming (snd (fill mp oid od s))) = is_buy (incoming s)"
  "order_type (incoming (snd (fill mp oid od s))) = order_type (incoming s)"
  "price (incoming (snd (fill mp oid od s))) = price (incoming s)"
  "order_id (incoming (snd (fill mp oid od s))) = order_id (incoming s)"
  by (simp_all add: fill_incoming)








lemma resting_at_Nil [simp]: "resting_at side p [] = []"
  by (simp add: resting_at_def)


lemma resting_quantity_Nil [simp]: "resting_quantity side p [] = 0"
  by (simp add: resting_quantity_def)


lemma side_total_Nil [simp]: "side_total side [] = 0"
  by (simp add: side_total_def)


lemma candidate_fill [simp]: "candidate side p (fst (fill mp oid od s)) = candidate side p od"
  by (simp add: candidate_def fill_fst)














text \<open>Every order marked for removal is a spent order of the level.\<close>

lemma scan_tail_kept:
  "(i, od) \<in> set (fst (scan mp r s)) \<Longrightarrow> candidate (\<not> is_buy (incoming s)) mp od \<or> (i, od) \<in> set r"
proof (induction r arbitrary: s)
  case Nil
  then show ?case by simp
next
  case (Cons e r)
  obtain oid od0 where e: "e = (oid, od0)" by (cases e)
  show ?case
    using Cons.prems Cons.IH [of s] Cons.IH [of "snd (fill mp oid od0 s)"]
    by (auto simp add: e scan_Cons fill_incoming_fields simp del: scan.simps(2) split: if_splits)
qed


lemma matching_loop_unfold:
  "matching_loop od ts b =
     (if loop_guard od b
      then (case match_orders od (fst (hd (opposite od b))) ts b of (od1, ts1, b1) \<Rightarrow> matching_loop od1 ts1 b1)
      else Some (od, ts, b))"
  by (subst matching_loop.simps) (simp add: loop_guard_def Let_def)

lemma loop_rule:
  assumes run: "matching_loop od ts b = Some (od', ts', b')"
    and init: "I od ts b"
    and step: "\<And>od ts b od1 ts1 b1. I od ts b \<Longrightarrow> loop_guard od b \<Longrightarrow>
        match_orders od (fst (hd (opposite od b))) ts b = (od1, ts1, b1) \<Longrightarrow> I od1 ts1 b1"
  shows "I od' ts' b' \<and> \<not> loop_guard od' b'"
proof -
  let ?P = "\<lambda>od ts b y. I od ts b \<longrightarrow> (case y of (od', ts', b') \<Rightarrow> I od' ts' b' \<and> \<not> loop_guard od' b')"
  have "?P od ts b (od', ts', b')"
  proof (rule matching_loop.raw_induct [where P = ?P, OF _ run])
    fix loop od ts b y
    assume IH: "\<And>od ts b y. loop od ts b = Some y \<Longrightarrow> ?P od ts b y"
      and body: "(if 0 < quantity od \<and> opposite od b \<noteq> []
           then let best = fst (hd (opposite od b))
                in if crossable od best
                   then case match_orders od best ts b of (od1, ts1, b1) \<Rightarrow> loop od1 ts1 b1
                   else Some (od, ts, b)
           else Some (od, ts, b)) = Some y"
    show "?P od ts b y"
    proof (cases "loop_guard od b")
      case True
      obtain od1 ts1 b1 where m: "match_orders od (fst (hd (opposite od b))) ts b = (od1, ts1, b1)"
        by (cases "match_orders od (fst (hd (opposite od b))) ts b") auto
      with True body have "loop od1 ts1 b1 = Some y"
        by (simp add: Let_def loop_guard_def)
      from IH [OF this] step [OF _ True m] show ?thesis by blast
    next
      case False
      with body have "y = (od, ts, b)"
        by (auto simp: Let_def loop_guard_def split: if_splits)
      with False show ?thesis by auto
    qed
  qed
  with init show ?thesis by simp
qed


subsection \<open>One call of \<open>match_orders\<close>\<close>







lemma scan_start_simps [simp]:
  "incoming (scan_start od ts b) = od"
  "level_lad (scan_start od ts b) = side_ladder (\<not> is_buy od) b"
  "trades (scan_start od ts b) = ts"
  "orders_to_remove (scan_start od ts b) = []"
  by (simp_all add: scan_start_def)















subsection \<open>The loops of \<open>add_order\<close>\<close>












subsection \<open>\<open>add_order\<close>, resting and cancelling\<close>

lemma add_order_fresh:
  "\<not> order_exists b (order_id od) \<Longrightarrow>
     add_order od b =
       (case matching_loop od [] b of
          None \<Rightarrow> None
        | Some (od', ts, b1) \<Rightarrow>
            Some (ts, if order_type od' = LIMIT \<and> 0 < quantity od' then rest_order od' b1 else b1))"
  by (auto simp: add_order_def order_exists_def split: option.splits OrderType.splits
      intro: OrderType.exhaust)


lemma rest_order_sides:
  "side_ladder (is_buy od) (rest_order od b) =
     lad_add (is_buy od) (price od) (quantity od) (side_ladder (is_buy od) b)"
  "side_ladder (\<not> is_buy od) (rest_order od b) = side_ladder (\<not> is_buy od) b"
  "orders (rest_order od b) = reg_put (order_id od) od (orders b)"
  by (simp_all add: rest_order_def side_ladder_def update_max_quantities_def)

lemma map_of_replace:
  "map_of (map (\<lambda>(k, x). if k = i then (k, od) else (k, x)) r) j =
     (if j = i then map_option (\<lambda>x. od) (map_of r i) else map_of r j)"
  by (induction r) auto

lemma map_of_reg_put: "map_of (reg_put i od r) = (map_of r)(i \<mapsto> od)"
  by (cases "map_of r i") (auto simp: reg_put_def map_of_replace fun_eq_iff)




lemma lad_put_not_Nil: "lad_put desc p v l \<noteq> []"
  by (cases l) (auto split: if_splits)

lemma before_flip: "before (\<not> desc) a b = before desc b a"
  by (simp add: before_def)

lemma sorted_bids_asks:
  "sorted_lad True (bids b) \<and> sorted_lad False (asks b) \<longleftrightarrow> (\<forall>side. sorted_lad side (side_ladder side b))"
  by (auto simp: side_ladder_def)



lemma lad_put_put: "lad_put desc p v (lad_put desc p w l) = lad_put desc p v l"
  by (induction l) (auto simp: before_irrefl)

lemma lad_put_same:
  "sorted_lad desc l \<Longrightarrow> map_of l p = Some v \<Longrightarrow> lad_put desc p v l = l"
proof (induction l)
  case Nil
  then show ?case by simp
next
  case (Cons e l)
  obtain k w where e: "e = (k, w)" by (cases e)
  from Cons.prems(1) have tl: "sorted_lad desc l" and hd: "\<forall>x \<in> fst ` set l. before desc k x"
    by (auto simp: sorted_lad_def e)
  show ?case
  proof (cases "p = k")
    case True
    with Cons.prems show ?thesis by (simp add: e)
  next
    case False
    with Cons.prems have m: "map_of l p = Some v" by (simp add: e)
    then have "p \<in> fst ` set l" by (force dest: map_of_SomeD)
    with hd have "before desc k p" by blast
    then have "\<not> before desc p k" using before_trans [of desc p k p] before_irrefl by blast
    with False Cons.IH [OF tl m] show ?thesis by (simp add: e)
  qed
qed

lemma lad_erase_alt: "lad_erase p l = filter (\<lambda>e. fst e \<noteq> p) l"
  by (simp add: lad_erase_def case_prod_unfold)

lemma lad_erase_lad_put: "lad_erase p (lad_put desc p v l) = lad_erase p l"
  by (induction l) (auto simp: lad_erase_alt)

lemma lad_erase_absent: "map_of l p = None \<Longrightarrow> lad_erase p l = l"
  by (induction l) (auto simp: lad_erase_alt split: if_splits)

lemma lad_erase_put:
  "map_of l p = None \<Longrightarrow> lad_erase p (lad_put desc p v l) = l"
  by (simp add: lad_erase_lad_put lad_erase_absent)

lemma reg_put_fresh: "map_of r i = None \<Longrightarrow> reg_put i od r = (i, od) # r"
  by (simp add: reg_put_def)

lemma reg_erase_fresh: "map_of r i = None \<Longrightarrow> reg_erase i r = r"
  by (induction r) (auto simp: reg_erase_def split: if_splits)

lemma reg_erase_put:
  "map_of r i = None \<Longrightarrow> reg_erase i (reg_put i od r) = r"
  using reg_erase_fresh [of r i] by (simp add: reg_put_fresh) (simp add: reg_erase_def)

lemma rest_order_counts:
  "side_counts (is_buy od) (rest_order od b) = lad_add False (price od) 1 (side_counts (is_buy od) b)"
  "side_counts (\<not> is_buy od) (rest_order od b) = side_counts (\<not> is_buy od) b"
  by (simp_all add: rest_order_def side_counts_def update_max_quantities_def)

lemma release_sides:
  "side_ladder (is_buy od) (release od b) =
     (case map_of (side_ladder (is_buy od) b) (price od) of
        None \<Rightarrow> side_ladder (is_buy od) b
      | Some agg \<Rightarrow>
          if agg \<le> quantity od then lad_erase (price od) (side_ladder (is_buy od) b)
          else lad_put (is_buy od) (price od) (agg - quantity od) (side_ladder (is_buy od) b))"
  "side_counts (is_buy od) (release od b) =
     (case map_of (side_ladder (is_buy od) b) (price od) of
        None \<Rightarrow> side_counts (is_buy od) b
      | Some agg \<Rightarrow>
          if agg \<le> quantity od then lad_erase (price od) (side_counts (is_buy od) b)
          else lad_sub False (price od) 1 (side_counts (is_buy od) b))"
  "side_ladder (\<not> is_buy od) (release od b) = side_ladder (\<not> is_buy od) b"
  "side_counts (\<not> is_buy od) (release od b) = side_counts (\<not> is_buy od) b"
  "orders (release od b) = orders b"
  by (simp_all add: release_def side_ladder_def side_counts_def split: option.splits)

lemma cancel_order_sides:
  assumes "map_of (orders b) i = Some od" and "order_type od = LIMIT"
  shows "fst (cancel_order i b) = True"
    and "side_ladder side (snd (cancel_order i b)) = side_ladder side (release od b)"
    and "side_counts side (snd (cancel_order i b)) = side_counts side (release od b)"
    and "orders (snd (cancel_order i b)) = reg_erase i (orders b)"
  using assms
  by (simp_all add: cancel_order_def Let_def side_ladder_def side_counts_def update_max_quantities_def
      release_sides(5))

lemma sides_eq:
  "(\<And>side. side_ladder side b2 = side_ladder side b) \<Longrightarrow>
   (\<And>side. side_counts side b2 = side_counts side b) \<Longrightarrow>
   bids b2 = bids b \<and> asks b2 = asks b \<and>
   bid_order_counts b2 = bid_order_counts b \<and> ask_order_counts b2 = ask_order_counts b"
proof -
  assume l: "\<And>side. side_ladder side b2 = side_ladder side b"
    and c: "\<And>side. side_counts side b2 = side_counts side b"
  from l [of True] l [of False] c [of True] c [of False] show ?thesis
    by (simp add: side_ladder_def side_counts_def)
qed

lemma release_rest_order:
  assumes pos: "0 < quantity od"
    and sl: "sorted_lad (is_buy od) (side_ladder (is_buy od) b)"
    and sc: "sorted_lad False (side_counts (is_buy od) b)"
    and lvl: "level_restorable (is_buy od) (price od) (quantity od) b"
  shows "side_ladder side (release od (rest_order od b)) = side_ladder side b"
    and "side_counts side (release od (rest_order od b)) = side_counts side b"
proof -
  let ?S = "is_buy od" and ?p = "price od" and ?q = "quantity od"
  let ?own = "side_ladder ?S b" and ?cnt = "side_counts ?S b"
  let ?b1 = "rest_order od b"
  have own1: "side_ladder ?S ?b1 = lad_put ?S ?p (lad_at ?own ?p + ?q) ?own"
    and cnt1: "side_counts ?S ?b1 = lad_put False ?p (lad_at ?cnt ?p + 1) ?cnt"
    by (simp_all add: rest_order_sides rest_order_counts lad_add_def)
  have m1: "map_of (side_ladder ?S ?b1) ?p = Some (lad_at ?own ?p + ?q)"
    by (simp add: own1 map_of_lad_put)
  let ?a1 = "lad_at ?own ?p + ?q"
  have r1: "side_ladder ?S (release od ?b1) =
      (if ?a1 \<le> ?q then lad_erase ?p (side_ladder ?S ?b1)
       else lad_put ?S ?p (?a1 - ?q) (side_ladder ?S ?b1))"
    by (simp add: release_sides(1) m1)
  have r2: "side_counts ?S (release od ?b1) =
      (if ?a1 \<le> ?q then lad_erase ?p (side_counts ?S ?b1)
       else lad_sub False ?p 1 (side_counts ?S ?b1))"
    by (simp add: release_sides(2) m1)
  have "side_ladder ?S (release od ?b1) = ?own \<and> side_counts ?S (release od ?b1) = ?cnt"
  proof (cases "map_of ?own ?p")
    case None
    with lvl have cn: "map_of ?cnt ?p = None" by (simp add: level_restorable_def)
    from None have "lad_at ?own ?p = 0" by (simp add: lad_at_def)
    then show ?thesis
      using None cn by (simp add: r1 r2 own1 cnt1 lad_erase_put)
  next
    case (Some agg)
    with lvl obtain c where nz: "agg \<noteq> 0" and nov: "unat agg + unat ?q < 2 ^ 64"
      and cs: "map_of ?cnt ?p = Some c"
      by (auto simp: level_restorable_def)
    from Some have at: "lad_at ?own ?p = agg" by (simp add: lad_at_def)
    from cs have atc: "lad_at ?cnt ?p = c" by (simp add: lad_at_def)
    have "unat (agg + ?q) = unat agg + unat ?q"
      using nov unat_add_lem [of agg ?q] by simp
    moreover have "0 < unat agg" using nz by (simp add: unat_gt_0)
    ultimately have "unat ?q < unat (agg + ?q)" by simp
    then have gt: "\<not> agg + ?q \<le> ?q" by (simp add: word_le_nat_alt)
    have l: "lad_put ?S ?p (agg + ?q - ?q) (lad_put ?S ?p (agg + ?q) ?own) = ?own"
      using lad_put_same [OF sl Some] by (simp add: lad_put_put)
    have c: "lad_sub False ?p 1 (lad_put False ?p (c + 1) ?cnt) = ?cnt"
      using lad_put_same [OF sc cs] by (simp add: lad_sub_def lad_at_lad_put lad_put_put)
    show ?thesis
      using gt l c by (simp add: r1 r2 own1 cnt1 at atc)
  qed
  moreover have "side_ladder (\<not> ?S) (release od ?b1) = side_ladder (\<not> ?S) b"
    "side_counts (\<not> ?S) (release od ?b1) = side_counts (\<not> ?S) b"
    by (simp_all add: release_sides rest_order_sides rest_order_counts)
  ultimately show "side_ladder side (release od ?b1) = side_ladder side b"
    and "side_counts side (release od ?b1) = side_counts side b"
    by (cases "side = ?S"; auto)+
qed

subsection \<open>The example books are reachable\<close>

lemma add_one_bid: "add_order (limit_order 1 True 10 5) empty_book = Some ([], one_bid)"
  by (simp add: run_simps one_bid_def)

lemma reachable_one_bid: "reachable one_bid"
  by (rule reachable.add [OF reachable.init add_one_bid])

lemma add_one_ask: "add_order (limit_order 1 False 10 3) empty_book = Some ([], one_ask)"
  by (simp add: run_simps one_ask_def)

lemma add_two_asks: "add_order (limit_order 2 False 10 3) one_ask = Some ([], two_asks)"
  by (simp add: run_simps one_ask_def two_asks_def)

lemma reachable_two_asks: "reachable two_asks"
  by (rule reachable.add [OF reachable.add [OF reachable.init add_one_ask] add_two_asks])

lemma add_zero_bid: "add_order (limit_order 1 True 0 5) empty_book = Some ([], zero_bid)"
  by (simp add: run_simps zero_bid_def)

lemma reachable_zero_bid: "reachable zero_bid"
  by (rule reachable.add [OF reachable.init add_zero_bid])

lemmas state_simps = consistent_def backed_def side_ladder_def side_counts_def resting_at_def
  resting_quantity_def candidate_def sorted_lad_def before_def limit_order_def market_order_def
  book_of_def order_exists_def uncrossed_def

lemma reachable_one_ask: "reachable one_ask"
  by (rule reachable.add [OF reachable.init add_one_ask])








subsection \<open>Snapshots and the deep book\<close>











subsection \<open>A call of \<open>add_order\<close> that does not return\<close>

text \<open>
  A loop whose body leaves the order and the book as they were, with the loop condition
  true, never ends.
\<close>

lemma matching_loop_stuck:
  assumes g: "loop_guard od b"
    and m: "match_orders od (fst (hd (opposite od b))) ts b = (od, ts, b)"
  shows "matching_loop od ts b = None"
proof (cases "matching_loop od ts b")
  case None
  then show ?thesis .
next
  case (Some y)
  obtain od' ts' b' where y: "y = (od', ts', b')" by (cases y)
  have "(od', ts', b') = (od, ts, b) \<and> \<not> loop_guard od' b'"
  proof (rule loop_rule [where I = "\<lambda>oa ta ba. (oa, ta, ba) = (od, ts, b)"])
    show "matching_loop od ts b = Some (od', ts', b')" using Some y by simp
    show "(od, ts, b) = (od, ts, b)" by simp
  next
    fix oa ta ba od1 ts1 b1
    assume "(oa, ta, ba) = (od, ts, b)"
      and "match_orders oa (fst (hd (opposite oa ba))) ta ba = (od1, ts1, b1)"
    with m show "(od1, ts1, b1) = (od, ts, b)" by simp
  qed
  with g show ?thesis by auto
qed

text \<open>
  This happens on a reachable book: on \<open>stuck_before\<close> the aggregate of the level at 10
  is 5 while \<open>2^63 + 5\<close> rest there. A MARKET buy of \<open>2^63 + 6\<close> fills both resting sells,
  the aggregate wraps around to \<open>2^63\<close>, and a level without any resting order is left
  with 1 still to buy: every further call of \<open>match_orders\<close> changes nothing.
\<close>

lemma big_simps: "big + big = 0" "0 < big" "(5 :: u64) < big" "\<not> big \<le> 0" "big \<noteq> 0"
  "min (big + 6) 5 = (5::u64)" "min (big + 1) big = big" "0 - big = big" "big + 6 - 5 = big + 1"
  "big + 1 - big = 1" "- big = big" "2 * big = 0" "0 < big + 6" "0 < big + 1" "big + 1 \<noteq> 0" "big + 6 \<noteq> 5" "big \<le> big"
  by (simp_all add: big_def)

lemma add_big_1: "add_order (limit_order 1 False 10 big) empty_book =
    Some ([], book_of [(1, limit_order 1 False 10 big)] [] [(10, big)] [] [(10, 1)] 0 big)"
  by (simp add: run_simps big_simps)

lemma add_big_2: "add_order (limit_order 2 False 10 big)
      (book_of [(1, limit_order 1 False 10 big)] [] [(10, big)] [] [(10, 1)] 0 big) =
    Some ([], book_of [(2, limit_order 2 False 10 big), (1, limit_order 1 False 10 big)]
               [] [(10, 0)] [] [(10, 2)] 0 0)"
  by (simp add: run_simps big_simps)

lemma cancel_big_1: "cancel_order 1 (book_of [(2, limit_order 2 False 10 big), (1, limit_order 1 False 10 big)]
               [] [(10, 0)] [] [(10, 2)] 0 0) =
    (True, book_of [(2, limit_order 2 False 10 big)] [] [] [] [] 0 0)"
  by (simp add: run_simps big_simps)

lemma add_small_3: "add_order (limit_order 3 False 10 5) (book_of [(2, limit_order 2 False 10 big)] [] [] [] [] 0 0) =
    Some ([], stuck_before)"
  by (simp add: run_simps big_simps stuck_before_def)

lemma reachable_stuck_before: "reachable stuck_before"
  by (rule reachable.add [OF reachable.cancel [OF reachable.add [OF reachable.add
        [OF reachable.init add_big_1] add_big_2] cancel_big_1] add_small_3])

lemma add_order_never_returns:
  "reachable stuck_before \<and> \<not> order_exists stuck_before 4 \<and>
   add_order (market_order 4 True (big + 6)) stuck_before = None"
proof -
  let ?od1 = "market_order 4 True 1"
  let ?ts1 = "[\<lparr>buy_order_id = 4, sell_order_id = 3, trade_price = 10, trade_quantity = 5\<rparr>,
              \<lparr>buy_order_id = 4, sell_order_id = 2, trade_price = 10, trade_quantity = big\<rparr>]"
  have g0: "loop_guard (market_order 4 True (big + 6)) stuck_before"
    by (simp add: loop_guard_def opposite_def crossable_def market_order_def stuck_before_def
        book_of_def big_simps)
  have m0: "match_orders (market_order 4 True (big + 6)) (fst (hd (opposite (market_order 4 True (big + 6)) stuck_before)))
      [] stuck_before = (?od1, ?ts1, stuck)"
    by (simp add: match_orders_def fill_def opposite_def update_max_quantities_def max_level_def
        lad_sub_def lad_at_def lad_erase_def reg_erase_def before_def Let_def limit_order_def
        market_order_def book_of_def stuck_before_def stuck_def big_simps)
  have g1: "loop_guard ?od1 stuck"
    by (simp add: loop_guard_def opposite_def crossable_def market_order_def stuck_def book_of_def)
  have m1: "match_orders ?od1 (fst (hd (opposite ?od1 stuck))) ?ts1 stuck = (?od1, ?ts1, stuck)"
    by (simp add: match_orders_def opposite_def update_max_quantities_def max_level_def
        market_order_def book_of_def stuck_def big_simps)
  have "matching_loop ?od1 ?ts1 stuck = None" using g1 m1 by (rule matching_loop_stuck)
  then have "matching_loop (market_order 4 True (big + 6)) [] stuck_before = None"
    using g0 m0 by (subst matching_loop_unfold) simp
  moreover have "\<not> order_exists stuck_before 4"
    by (simp add: order_exists_def stuck_before_def book_of_def)
  ultimately show ?thesis
    using reachable_stuck_before by (simp add: add_order_def order_exists_def market_order_def)
qed

subsection \<open>Ladder consistency and zero levels\<close>

text \<open>
  Claim C1 (ladder consistency after every public operation) fails on the code. On the
  reachable book \<open>two_asks\<close> (two sells of 3 at price 10), a buy of 3 at price 10 fills
  one of the two sells completely. \<open>match_orders\<close> lowers the aggregate of the level to 3
  and removes the filled order from the registry, but it never decrements
  \<open>ask_order_counts\<close>: the level still counts 2 orders while one order rests there.
  (The two sells are equal: whichever of them the scan of the hash table meets first is
  the one filled and removed, and the aggregate 3, the count 2 and the one resting
  order are the same in both cases; only the id of the survivor differs. Here the scan
  meets order 2 first and order 1 survives.)
\<close>

theorem match_orders_keeps_stale_count:
  "reachable two_asks \<and>
   map_option snd (add_order (limit_order 3 True 10 3) two_asks) =
     Some (book_of [(1, limit_order 1 False 10 3)] [] [(10, 3)] [] [(10, 2)] 0 3) \<and>
   lad_at [(10, 2)] 10 = (2 :: u64) \<and>
   resting_count False 10 [(1, limit_order 1 False 10 3)] = 1"
  by (simp add: reachable_two_asks) (simp add: run_simps two_asks_def resting_count_def resting_at_def candidate_def)

text \<open>
  Claim C2 (no ladder entry with aggregate zero, also after an amendment to quantity
  zero) fails on the code. On the reachable book \<open>one_bid\<close>, \<open>amend_order(1, 11, 0)\<close>
  releases the level at 10 and then executes \<open>bids[11] += 0\<close>, which creates the level 11
  with aggregate 0; \<open>add_order\<close> guards the same statement with \<open>quantity > 0\<close>.
\<close>

theorem amend_to_zero_creates_zero_level:
  "reachable one_bid \<and>
   amend_order 1 11 0 one_bid =
     (True, book_of [(1, limit_order 1 True 11 0)] [(11, 0)] [] [(11, 1)] [] 0 0) \<and>
   map_of [(11, 0 :: u64)] (11 :: real) = Some 0"
  by (simp add: reachable_one_bid) (simp add: run_simps one_bid_def)

subsection \<open>Rejected identities\<close>

text \<open>
  Claim C4: when the order's id is already in the registry, \<open>add_order\<close> returns the empty
  trade sequence and the book it was given, unchanged in every field.
\<close>

theorem add_order_duplicate_is_noop:
  "order_exists b (order_id od) \<Longrightarrow> add_order od b = Some ([], b)"
  by (simp add: add_order_def order_exists_def)

theorem add_order_duplicate_is_noop_witness:
  "order_exists one_bid (order_id (limit_order 1 False 7 9)) \<and>
   add_order (limit_order 1 False 7 9) one_bid = Some ([], one_bid)"
proof -
  have ex: "order_exists one_bid (order_id (limit_order 1 False 7 9))"
    by (simp add: order_exists_def one_bid_def book_of_def limit_order_def)
  from ex add_order_duplicate_is_noop [OF ex] show ?thesis by simp
qed

text \<open>
  Claim C5: for an id that is not in the registry, \<open>cancel_order\<close> returns false and
  \<open>amend_order\<close> returns false, for every new price and quantity, and both return the
  book unchanged.
\<close>

theorem unknown_id_is_rejected:
  "\<not> order_exists b i \<Longrightarrow>
     cancel_order i b = (False, b) \<and> amend_order i new_price new_quantity b = (False, b)"
  by (simp add: cancel_order_def amend_order_def order_exists_def)

theorem unknown_id_is_rejected_witness:
  "\<not> order_exists one_bid 999 \<and> cancel_order 999 one_bid = (False, one_bid) \<and>
   amend_order 999 11 10 one_bid = (False, one_bid)"
proof -
  have nex: "\<not> order_exists one_bid 999"
    by (simp add: order_exists_def one_bid_def book_of_def)
  from nex unknown_id_is_rejected [OF nex, of 11 10] show ?thesis by simp
qed

subsection \<open>Best prices\<close>

text \<open>
  Claim C8 as stated (the result on an empty ladder differs from the result on a ladder
  whose best price is 0) is false: \<open>get_best_bid\<close> returns 0.0 for the empty ladder, and
  the reachable book \<open>zero_bid\<close>, whose only bid level is at price 0, gives 0.0 as well.
\<close>

theorem best_bid_zero_counterexample:
  "reachable zero_bid \<and> bids zero_bid \<noteq> [] \<and> fst (hd (bids zero_bid)) = 0 \<and>
   bids empty_book = [] \<and> get_best_bid zero_bid = get_best_bid empty_book"
  by (simp add: reachable_zero_bid) (simp add: zero_bid_def book_of_def empty_book_def get_best_bid_def)

text \<open>
  Claim C8, amended: the best-price queries return 0 on an empty ladder and the first key
  of the ladder otherwise, so the result on a non-empty ladder equals the result on an
  empty one exactly when the best price is 0. Emptiness is distinguishable from every
  best price but 0.
\<close>

theorem best_price_sentinel:
  "get_best_bid b = (if bids b = [] then 0 else fst (hd (bids b))) \<and>
   get_best_ask b = (if asks b = [] then 0 else fst (hd (asks b))) \<and>
   (bids e = [] \<and> bids b \<noteq> [] \<longrightarrow>
      (get_best_bid b = get_best_bid e) = (fst (hd (bids b)) = 0)) \<and>
   (asks e = [] \<and> asks b \<noteq> [] \<longrightarrow>
      (get_best_ask b = get_best_ask e) = (fst (hd (asks b)) = 0))"
  by (simp add: get_best_bid_def get_best_ask_def)

theorem best_price_sentinel_witness:
  "get_best_bid empty_book = 0 \<and> get_best_ask empty_book = 0 \<and>
   get_best_bid one_bid = 10 \<and> get_best_ask one_ask = 10 \<and>
   get_best_bid one_bid \<noteq> get_best_bid empty_book \<and>
   get_best_ask one_ask \<noteq> get_best_ask empty_book"
proof -
  have e: "bids empty_book = []" "asks empty_book = []"
    by (simp_all add: empty_book_def)
  have b: "bids one_bid \<noteq> []" "fst (hd (bids one_bid)) = 10"
    by (simp_all add: one_bid_def book_of_def)
  have a: "asks one_ask \<noteq> []" "fst (hd (asks one_ask)) = 10"
    by (simp_all add: one_ask_def book_of_def)
  have "get_best_bid empty_book = 0" "get_best_ask empty_book = 0"
    using best_price_sentinel [of empty_book empty_book] e by simp_all
  moreover have "get_best_bid one_bid = 10" "get_best_bid one_bid \<noteq> get_best_bid empty_book"
    using best_price_sentinel [of one_bid empty_book] e b by simp_all
  moreover have "get_best_ask one_ask = 10" "get_best_ask one_ask \<noteq> get_best_ask empty_book"
    using best_price_sentinel [of one_ask empty_book] e a by simp_all
  ultimately show ?thesis by simp
qed

subsection \<open>Admission: crossing, market orders and conservation\<close>








subsection \<open>Adding and cancelling\<close>

text \<open>
  Claim C7 as stated (adding a LIMIT order with a fresh id and cancelling it restores
  all ladder aggregates and counts on both sides) is false for an order that crosses.
  On the reachable book \<open>one_ask\<close> (a sell of 3 at 10) a buy of 5 at 10 trades 3 and rests
  with 2; cancelling it empties the bid side again, but the ask level at 10, with its
  aggregate 3 and count 1, is gone.
\<close>

theorem add_then_cancel_crossing_counterexample:
  "reachable one_ask \<and> order_type (limit_order 2 True 10 5) = LIMIT \<and>
   \<not> order_exists one_ask 2 \<and>
   add_order (limit_order 2 True 10 5) one_ask =
     Some ([\<lparr>buy_order_id = 2, sell_order_id = 1, trade_price = 10, trade_quantity = 3\<rparr>],
           crossing_rest) \<and>
   cancel_order 2 crossing_rest = (True, drained) \<and>
   asks one_ask = [(10, 3)] \<and> asks drained = [] \<and>
   ask_order_counts one_ask = [(10, 1)] \<and> ask_order_counts drained = []"
  by (simp add: reachable_one_ask)
     (simp add: run_simps state_simps one_ask_def crossing_rest_def drained_def)

text \<open>
  Claim C7, amended: for every book and every LIMIT order with a fresh id that does not
  match on admission (its quantity is 0, or the opposite ladder is empty, or the best
  opposite price does not cross its price), if the ladder and the count map of its side
  are sorted maps and the level at its price is absent from both, or present in both
  with an aggregate that is not zero and does not wrap around when the order's quantity
  is added, then \<open>add_order\<close> returns no trades and \<open>cancel_order\<close> of the same id
  afterwards returns both ladders, both count maps and the registry exactly as they
  were before \<open>add_order\<close> (\<open>cancel_order\<close> returns true unless the quantity is 0, when
  the order never rested).
\<close>

theorem add_then_cancel_restores:
  assumes lim: "order_type od = LIMIT"
    and fresh: "\<not> order_exists b (order_id od)"
    and rests: "\<not> loop_guard od b"
    and sl: "sorted_lad (is_buy od) (side_ladder (is_buy od) b)"
    and sc: "sorted_lad False (side_counts (is_buy od) b)"
    and lvl: "level_restorable (is_buy od) (price od) (quantity od) b"
  shows "\<exists>b1 b2. add_order od b = Some ([], b1) \<and>
           cancel_order (order_id od) b1 = (0 < quantity od, b2) \<and>
           bids b2 = bids b \<and> asks b2 = asks b \<and>
           bid_order_counts b2 = bid_order_counts b \<and>
           ask_order_counts b2 = ask_order_counts b \<and> orders b2 = orders b"
proof -
  have loop: "matching_loop od [] b = Some (od, [], b)"
    using rests by (subst matching_loop_unfold) simp
  have absent: "map_of (orders b) (order_id od) = None"
    using fresh by (simp add: order_exists_def)
  show ?thesis
  proof (cases "0 < quantity od")
    case False
    then have "add_order od b = Some ([], b)"
      using lim by (simp add: add_order_fresh [OF fresh] loop)
    moreover have "cancel_order (order_id od) b = (0 < quantity od, b)"
      using False absent by (simp add: cancel_order_def)
    ultimately show ?thesis by blast
  next
    case True
    let ?b1 = "rest_order od b"
    let ?b2 = "snd (cancel_order (order_id od) ?b1)"
    have add: "add_order od b = Some ([], ?b1)"
      using lim True by (simp add: add_order_fresh [OF fresh] loop)
    have m: "map_of (orders ?b1) (order_id od) = Some od"
      by (simp add: rest_order_sides map_of_reg_put)
    note c = cancel_order_sides [OF m lim]
    have "cancel_order (order_id od) ?b1 = (0 < quantity od, ?b2)"
      using c(1) True by (simp add: prod_eq_iff)
    moreover have "side_ladder side ?b2 = side_ladder side b" for side
      using release_rest_order(1) [OF True sl sc lvl] by (simp add: c(2))
    moreover have "side_counts side ?b2 = side_counts side b" for side
      using release_rest_order(2) [OF True sl sc lvl] by (simp add: c(3))
    moreover have "orders ?b2 = orders b"
      using absent by (simp add: c(4) rest_order_sides reg_erase_put)
    ultimately show ?thesis
      using add sides_eq [of ?b2 b] by blast
  qed
qed

theorem add_then_cancel_restores_witness:
  "order_type (limit_order 2 True 10 3) = LIMIT \<and>
   \<not> order_exists one_bid (order_id (limit_order 2 True 10 3)) \<and>
   \<not> loop_guard (limit_order 2 True 10 3) one_bid \<and>
   level_restorable True 10 3 one_bid \<and>
   add_order (limit_order 2 True 10 3) one_bid = Some ([], one_bid_more) \<and>
   bids one_bid_more = [(10, 8)] \<and> bid_order_counts one_bid_more = [(10, 2)] \<and>
   fst (cancel_order 2 one_bid_more) = True \<and>
   bids (snd (cancel_order 2 one_bid_more)) = bids one_bid \<and>
   asks (snd (cancel_order 2 one_bid_more)) = asks one_bid \<and>
   bid_order_counts (snd (cancel_order 2 one_bid_more)) = bid_order_counts one_bid \<and>
   ask_order_counts (snd (cancel_order 2 one_bid_more)) = ask_order_counts one_bid"
proof -
  let ?od = "limit_order 2 True 10 3"
  have h: "order_type ?od = LIMIT" "\<not> order_exists one_bid (order_id ?od)"
    "\<not> loop_guard ?od one_bid"
    "sorted_lad (is_buy ?od) (side_ladder (is_buy ?od) one_bid)"
    "sorted_lad False (side_counts (is_buy ?od) one_bid)"
    "level_restorable (is_buy ?od) (price ?od) (quantity ?od) one_bid"
    by (simp_all add: state_simps loop_guard_def opposite_def level_restorable_def one_bid_def)
  have lr: "level_restorable True 10 3 one_bid"
    using h(6) by (simp add: limit_order_def)
  have run: "add_order ?od one_bid = Some ([], one_bid_more)"
    by (simp add: run_simps one_bid_def one_bid_more_def)
  have more: "bids one_bid_more = [(10, 8)]" "bid_order_counts one_bid_more = [(10, 2)]"
    by (simp_all add: one_bid_more_def book_of_def)
  from add_then_cancel_restores [OF h] run
  obtain b2 where c: "cancel_order (order_id ?od) one_bid_more = (0 < quantity ?od, b2)"
    and r: "bids b2 = bids one_bid" "asks b2 = asks one_bid"
      "bid_order_counts b2 = bid_order_counts one_bid"
      "ask_order_counts b2 = ask_order_counts one_bid"
    by auto
  have "order_id ?od = 2" "(0 < quantity ?od) = True" by (simp_all add: limit_order_def)
  with c have "cancel_order 2 one_bid_more = (True, b2)" by simp
  then show ?thesis using h(1-3) lr run more r by simp
qed

text \<open>
  The condition on the level cannot be dropped. On the reachable book \<open>zero_level\<close>, whose
  bid level at 11 has the aggregate 0, a buy of 3 at 11 does not match, and cancelling it
  erases the level and its count instead of giving back the aggregate 0 and the count 1.
\<close>

lemma reachable_zero_level: "reachable zero_level"
proof -
  have "amend_order 1 11 0 one_bid = (True, zero_level)"
    by (simp add: run_simps one_bid_def zero_level_def)
  with reachable_one_bid show ?thesis by (rule reachable.amend)
qed

lemma zero_level_not_restored:
  "add_order (limit_order 2 True 11 3) zero_level =
     Some ([], book_of [(2, limit_order 2 True 11 3), (1, limit_order 1 True 11 0)]
                 [(11, 3)] [] [(11, 2)] [] 3 0) \<and>
   cancel_order 2 (book_of [(2, limit_order 2 True 11 3), (1, limit_order 1 True 11 0)]
                 [(11, 3)] [] [(11, 2)] [] 3 0) =
     (True, book_of [(1, limit_order 1 True 11 0)] [] [] [] [] 0 0)"
  by (simp add: run_simps zero_level_def)

subsection \<open>Depth of \<open>get_price_levels\<close>\<close>




end
